theory Spec2Isabelle
  imports Complex_Main "HOL-Library.Log_Nat"
begin

section \<open>JavaScript numbers\<close>

text \<open>
  The metrics page (\<^verbatim>\<open>src/app.jsx\<close>) computes with JavaScript numbers, the binary64
  values of IEEE 754. A finite number other than \<^verbatim>\<open>-0\<close> is \<open>Fin q\<close> with \<open>q\<close> its exact
  value (\<open>Fin 0\<close> is \<^verbatim>\<open>+0\<close>); the other values are \<^verbatim>\<open>-0\<close>, \<^verbatim>\<open>NaN\<close>, \<^verbatim>\<open>Infinity\<close> and
  \<^verbatim>\<open>-Infinity\<close>.
\<close>

datatype jsnum = Fin rat | NegZero | NaN | PInf | NInf

subsection \<open>Rounding to the nearest number\<close>

text \<open>The power \<open>2\<^sup>k\<close> for an integer \<open>k\<close>.\<close>

definition pow2 :: "int \<Rightarrow> rat" where
  "pow2 k = 2 powi k"

text \<open>
  The integer \<open>e\<close> with \<open>2\<^sup>e \<le> a < 2\<^sup>e\<^sup>+\<^sup>1\<close>, for \<open>a > 0\<close>: with \<open>a = p / q\<close> it is the
  difference of the bit lengths of \<open>p\<close> and \<open>q\<close>, or one less.
\<close>

definition ilog2 :: "rat \<Rightarrow> int" where
  "ilog2 a =
     (let (p, q) = quotient_of a;
          d = bitlen p - bitlen q
      in if pow2 d \<le> a then d else d - 1)"

text \<open>The nearest integer, the even one of the two when \<open>m\<close> is half-way.\<close>

definition round_half_even :: "rat \<Rightarrow> int" where
  "round_half_even m =
     (let f = \<lfloor>m\<rfloor>; r = m - of_int f
      in if r < 1 / 2 then f else if 1 / 2 < r then f + 1 else if even f then f else f + 1)"

text \<open>
  The number that an exact result \<open>q\<close> is rounded to (round to nearest, ties to even). A
  number has 53 significant bits and an exponent from -1022 to 1023; below \<open>2\<^sup>-\<^sup>1\<^sup>0\<^sup>2\<^sup>2\<close>
  the numbers are the multiples of \<open>2\<^sup>-\<^sup>1\<^sup>0\<^sup>7\<^sup>4\<close>. A result that rounds to \<open>2\<^sup>1\<^sup>0\<^sup>2\<^sup>4\<close> or
  more is an infinity, and a result that rounds to zero keeps its sign.
\<close>

definition round_double :: "rat \<Rightarrow> jsnum" where
  "round_double q =
     (if q = 0 then Fin 0
      else
        let a = \<bar>q\<bar>;
            e = max (ilog2 a) (- 1022);
            m = round_half_even (a / pow2 (e - 52))
        in if 1024 \<le> e \<or> (e = 1023 \<and> m = 2 ^ 53) then (if q < 0 then NInf else PInf)
           else if m = 0 then (if q < 0 then NegZero else Fin 0)
           else Fin ((if q < 0 then - 1 else 1) * of_int m * pow2 (e - 52)))"

text \<open>
  A decimal literal of the program or of a JSON text (\<^verbatim>\<open>0.3\<close>, \<^verbatim>\<open>1.2\<close>) denotes the number
  nearest to its decimal value.
\<close>

definition js_literal :: "rat \<Rightarrow> jsnum" where
  "js_literal q = round_double q"

subsection \<open>Operators\<close>

text \<open>
  The operator \<^verbatim>\<open>+\<close> on two numbers: the exact sum, rounded. The sum of two zeros is
  \<^verbatim>\<open>-0\<close> only when both are \<^verbatim>\<open>-0\<close>, and an exact sum of zero is \<^verbatim>\<open>+0\<close>.
\<close>

fun js_add :: "jsnum \<Rightarrow> jsnum \<Rightarrow> jsnum" where
  "js_add NaN _ = NaN"
| "js_add _ NaN = NaN"
| "js_add PInf NInf = NaN"
| "js_add NInf PInf = NaN"
| "js_add PInf _ = PInf"
| "js_add _ PInf = PInf"
| "js_add NInf _ = NInf"
| "js_add _ NInf = NInf"
| "js_add NegZero b = b"
| "js_add a NegZero = a"
| "js_add (Fin a) (Fin b) = round_double (a + b)"

fun js_neg :: "jsnum \<Rightarrow> jsnum" where
  "js_neg (Fin a) = (if a = 0 then NegZero else Fin (- a))"
| "js_neg NegZero = Fin 0"
| "js_neg NaN = NaN"
| "js_neg PInf = NInf"
| "js_neg NInf = PInf"

text \<open>The operator \<^verbatim>\<open>-\<close>: IEEE subtraction is addition of the negated operand.\<close>

definition js_sub :: "jsnum \<Rightarrow> jsnum \<Rightarrow> jsnum" where
  "js_sub a b = js_add a (js_neg b)"

text \<open>
  The operator \<^verbatim>\<open>/\<close>: the exact quotient, rounded. Division by zero does not raise in
  JavaScript: \<^verbatim>\<open>0/0\<close> is \<^verbatim>\<open>NaN\<close>, and \<^verbatim>\<open>x/0\<close> is an infinity. The sign of a zero or
  infinite result is negative when exactly one operand is negative, \<^verbatim>\<open>-0\<close> counting as
  negative.
\<close>

fun js_div :: "jsnum \<Rightarrow> jsnum \<Rightarrow> jsnum" where
  "js_div NaN _ = NaN"
| "js_div _ NaN = NaN"
| "js_div (Fin a) (Fin b) =
     (if b = 0 then (if a = 0 then NaN else if 0 < a then PInf else NInf)
      else if a = 0 then (if b < 0 then NegZero else Fin 0)
      else round_double (a / b))"
| "js_div (Fin a) NegZero = (if a = 0 then NaN else if 0 < a then NInf else PInf)"
| "js_div NegZero (Fin b) = (if b = 0 then NaN else if b < 0 then Fin 0 else NegZero)"
| "js_div NegZero NegZero = NaN"
| "js_div (Fin a) PInf = (if a < 0 then NegZero else Fin 0)"
| "js_div (Fin a) NInf = (if a < 0 then Fin 0 else NegZero)"
| "js_div NegZero PInf = NegZero"
| "js_div NegZero NInf = Fin 0"
| "js_div PInf (Fin b) = (if b < 0 then NInf else PInf)"
| "js_div PInf NegZero = NInf"
| "js_div NInf (Fin b) = (if b < 0 then PInf else NInf)"
| "js_div NInf NegZero = PInf"
| "js_div _ _ = NaN"

text \<open>
  \<^verbatim>\<open>Math.min\<close> of two numbers: \<^verbatim>\<open>NaN\<close> if either is, and \<^verbatim>\<open>-0\<close> is smaller than \<^verbatim>\<open>+0\<close>.
\<close>

fun js_min :: "jsnum \<Rightarrow> jsnum \<Rightarrow> jsnum" where
  "js_min NaN _ = NaN"
| "js_min _ NaN = NaN"
| "js_min NInf _ = NInf"
| "js_min _ NInf = NInf"
| "js_min PInf b = b"
| "js_min a PInf = a"
| "js_min NegZero NegZero = NegZero"
| "js_min NegZero (Fin b) = (if b < 0 then Fin b else NegZero)"
| "js_min (Fin a) NegZero = (if a < 0 then Fin a else NegZero)"
| "js_min (Fin a) (Fin b) = Fin (min a b)"

text \<open>
  The comparison \<^verbatim>\<open>></\<close>: false as soon as an operand is \<^verbatim>\<open>NaN\<close>; the two zeros are
  equal.
\<close>

fun js_gt :: "jsnum \<Rightarrow> jsnum \<Rightarrow> bool" where
  "js_gt NaN _ = False"
| "js_gt _ NaN = False"
| "js_gt (Fin a) (Fin b) = (b < a)"
| "js_gt (Fin a) NegZero = (0 < a)"
| "js_gt NegZero (Fin b) = (b < 0)"
| "js_gt NegZero NegZero = False"
| "js_gt PInf PInf = False"
| "js_gt PInf _ = True"
| "js_gt _ PInf = False"
| "js_gt NInf _ = False"
| "js_gt _ NInf = True"

text \<open>
  A value that is a number or \<^verbatim>\<open>null\<close> (\<open>None\<close>). Where such a value is an operand of
  arithmetic or of a comparison with a number, JavaScript converts \<^verbatim>\<open>null\<close> to \<^verbatim>\<open>+0\<close>.
\<close>

type_synonym cell = "jsnum option"

fun to_number :: "cell \<Rightarrow> jsnum" where
  "to_number None = Fin 0"
| "to_number (Some n) = n"

section \<open>Frames of the metrics channel\<close>

text \<open>
  \<^verbatim>\<open>load_hour\<close> opens a \<^verbatim>\<open>metrics1\<close> channel on seven metrics, in this order:
  \<^verbatim>\<open>kernel.all.cpu.nice\<close>, \<^verbatim>\<open>kernel.all.cpu.user\<close>, \<^verbatim>\<open>kernel.all.cpu.sys\<close>,
  \<^verbatim>\<open>kernel.all.load\<close>, \<^verbatim>\<open>mem.physmem\<close>, \<^verbatim>\<open>mem.util.available\<close> and
  \<^verbatim>\<open>swap.pagesout\<close>. A sample is the array of their values. Six of them are scalar:
  a number, or \<^verbatim>\<open>null\<close> for "unchanged". The fourth has instances: its value is an
  array of numbers and \<^verbatim>\<open>null\<close>s, or \<^verbatim>\<open>null\<close> as a whole. The record below is a sample
  at these types; a sample array that ends early is the record with \<open>None\<close> in the
  missing places (\<^verbatim>\<open>forEach\<close> does not visit them, and leaves their cells as \<^verbatim>\<open>null\<close>
  does), and elements beyond the seventh would only write cells that are never read.
\<close>

record sample =
  nice :: cell
  user :: cell
  sys :: cell
  load :: "cell list option"
  physmem :: cell
  available :: cell
  pagesout :: cell

text \<open>
  A message is parsed with \<^verbatim>\<open>JSON.parse\<close>. The meta message is an object, of which only
  \<^verbatim>\<open>timestamp\<close> is read (milliseconds, an integer); a data message is an array of samples.
\<close>

datatype message = Meta int | Data "sample list"

section \<open>The data of one hour\<close>

text \<open>
  The object \<^verbatim>\<open>data\<close> of \<^verbatim>\<open>load_hour\<close>: four arrays, whose elements are numbers or
  \<^verbatim>\<open>null\<close>.
\<close>

record hour_data =
  use_cpu :: "cell list"
  sat_cpu :: "cell list"
  use_memory :: "cell list"
  sat_memory :: "cell list"

text \<open>
  What \<^verbatim>\<open>load_hour\<close> keeps for one channel: the requested \<^verbatim>\<open>timestamp\<close>, the object
  \<^verbatim>\<open>data\<close> (\<open>None\<close> while it is still \<^verbatim>\<open>{}\<close>: the four arrays are created together by
  the meta message), the array \<^verbatim>\<open>current\<close> of the last valid values, and whether
  the channel has closed. A channel is closed when its close event is dispatched; the
  \<^verbatim>\<open>metrics.close()\<close> at the end of the close listener then changes nothing.
\<close>

record subscription =
  timestamp :: int
  data :: "hour_data option"
  current :: "cell list"
  sub_closed :: bool

text \<open>The exceptions a listener can throw.\<close>

datatype error = RangeError | TypeError

text \<open>
  A listener that throws leaves the state as it was at the throw, and later events are
  still delivered: the error comes with that state.
\<close>

type_synonym 's result = "(error \<times> 's) + 's"

fun after :: "'s result \<Rightarrow> 's" where
  "after (Inl (e, s)) = s"
| "after (Inr s) = s"

definition new_subscription :: "int \<Rightarrow> subscription" where
  "new_subscription t =
     \<lparr>timestamp = t, data = None, current = replicate 7 None, sub_closed = False\<rparr>"

subsection \<open>Decompression\<close>

text \<open>\<^verbatim>\<open>if (sample !== null) current[i] = sample;\<close>\<close>

definition scalar :: "nat \<Rightarrow> cell \<Rightarrow> cell list \<Rightarrow> cell list" where
  "scalar i smp cur = (case smp of None \<Rightarrow> cur | Some v \<Rightarrow> cur[i := Some v])"

text \<open>
  \<^verbatim>\<open>if (sample && sample[1] !== undefined && sample[1] !== null) current[i] = sample[1];\<close>
  for \<^verbatim>\<open>i === 3\<close>. An array is truthy, also when empty; \<^verbatim>\<open>sample[1]\<close> is
  \<^verbatim>\<open>undefined\<close> in an array of fewer than two elements.
\<close>

definition instanced :: "cell list option \<Rightarrow> cell list \<Rightarrow> cell list" where
  "instanced smp cur =
     (case smp of
        None \<Rightarrow> cur
      | Some xs \<Rightarrow>
          if 1 < length xs then (case xs ! 1 of None \<Rightarrow> cur | Some v \<Rightarrow> cur[3 := Some v])
          else cur)"

text \<open>The inner \<^verbatim>\<open>samples.forEach\<close>, from index 0 to index 6.\<close>

definition decompress :: "sample \<Rightarrow> cell list \<Rightarrow> cell list" where
  "decompress s cur =
     scalar 6 (pagesout s)
       (scalar 5 (available s)
         (scalar 4 (physmem s)
           (instanced (load s)
             (scalar 2 (sys s)
               (scalar 1 (user s)
                 (scalar 0 (nice s) cur))))))"

subsection \<open>Normalisation\<close>

text \<open>The four \<^verbatim>\<open>push\<close> calls that follow the decompression of one sample.\<close>

definition norm_use_cpu :: "cell list \<Rightarrow> jsnum" where
  "norm_use_cpu cur =
     js_div (js_add (js_add (to_number (cur ! 0)) (to_number (cur ! 1))) (to_number (cur ! 2)))
       (Fin 1000)"

definition norm_sat_cpu :: "cell list \<Rightarrow> jsnum" where
  "norm_sat_cpu cur = js_div (js_min (to_number (cur ! 3)) (Fin 10)) (Fin 10)"

definition norm_use_memory :: "cell list \<Rightarrow> jsnum" where
  "norm_use_memory cur = js_sub (Fin 1) (js_div (to_number (cur ! 5)) (to_number (cur ! 4)))"

definition norm_sat_memory :: "cell list \<Rightarrow> jsnum" where
  "norm_sat_memory cur =
     (if js_gt (to_number (cur ! 6)) (Fin 1000) then Fin 1
      else if js_gt (to_number (cur ! 6)) (Fin 1) then js_literal (3 / 10)
      else Fin 0)"

definition push_sample :: "cell list \<Rightarrow> hour_data \<Rightarrow> hour_data" where
  "push_sample cur d =
     \<lparr>use_cpu = use_cpu d @ [Some (norm_use_cpu cur)],
      sat_cpu = sat_cpu d @ [Some (norm_sat_cpu cur)],
      use_memory = use_memory d @ [Some (norm_use_memory cur)],
      sat_memory = sat_memory d @ [Some (norm_sat_memory cur)]\<rparr>"

subsection \<open>The message listener\<close>

text \<open>
  \<^verbatim>\<open>Array(n)\<close> throws a \<^verbatim>\<open>RangeError\<close> unless \<^verbatim>\<open>n\<close> is an integer from 0 to
  \<^verbatim>\<open>2^32 - 1\<close>.
\<close>

definition array_length_ok :: "int \<Rightarrow> bool" where
  "array_length_ok n \<longleftrightarrow> 0 \<le> n \<and> n < 2 ^ 32"

text \<open>
  The meta message. \<^verbatim>\<open>data.use_cpu\<close> becomes \<^verbatim>\<open>nodata_minute_offset\<close> \<^verbatim>\<open>null\<close>s. The
  next statement,
  \<^verbatim>\<open>data.use_cpu.concat(Array(nodata_offset - nodata_minute_offset).fill(0))\<close>, builds
  a new array and drops it: \<^verbatim>\<open>concat\<close> does not change the array it is called on.
  The other three arrays are copies of \<^verbatim>\<open>data.use_cpu\<close>.
\<close>

definition on_meta :: "int \<Rightarrow> subscription \<Rightarrow> subscription result" where
  "on_meta batch_timestamp s =
     (let nodata_offset = (batch_timestamp - timestamp s) div 5000;
          nodata_minute_offset = (nodata_offset div 12) * 12
      in if \<not> array_length_ok nodata_minute_offset then Inl (RangeError, s)
         else
           let use_cpu0 = replicate (nat nodata_minute_offset) (None :: cell);
               dropped = use_cpu0 @
                 replicate (nat (nodata_offset - nodata_minute_offset)) (Some (Fin 0))
           in Inr (s\<lparr>data := Some \<lparr>use_cpu = use_cpu0, sat_cpu = use_cpu0,
                                     use_memory = use_cpu0, sat_memory = use_cpu0\<rparr>\<rparr>))"

text \<open>
  A data message: \<^verbatim>\<open>batch.forEach\<close>. Each sample is decompressed into \<^verbatim>\<open>current\<close>
  and then pushed; \<^verbatim>\<open>data.use_cpu.push\<close> throws a \<^verbatim>\<open>TypeError\<close> while \<^verbatim>\<open>data\<close> is
  still \<^verbatim>\<open>{}\<close>, after \<^verbatim>\<open>current\<close> has been updated.
\<close>

fun on_batch :: "sample list \<Rightarrow> subscription \<Rightarrow> subscription result" where
  "on_batch [] s = Inr s"
| "on_batch (x # xs) s =
     (let cur = decompress x (current s)
      in case data s of
           None \<Rightarrow> Inl (TypeError, s\<lparr>current := cur\<rparr>)
         | Some d \<Rightarrow> on_batch xs (s\<lparr>current := cur, data := Some (push_sample cur d)\<rparr>))"

fun on_message :: "message \<Rightarrow> subscription \<Rightarrow> subscription result" where
  "on_message (Meta bt) s = on_meta bt s"
| "on_message (Data batch) s = on_batch batch s"

text \<open>The messages of one channel in arrival order.\<close>

fun feed :: "message list \<Rightarrow> subscription \<Rightarrow> subscription" where
  "feed [] s = s"
| "feed (m # ms) s = feed ms (after (on_message m s))"

section \<open>The component \<^verbatim>\<open>MetricsHistory\<close>\<close>

text \<open>The two \<^verbatim>\<open>console.error\<close> lines of the close listener.\<close>

datatype logline = Failed_to_load | Closed_without_data

text \<open>
  \<^verbatim>\<open>this.data\<close> (hour timestamp to data), \<^verbatim>\<open>this.state.start\<close>, the channels opened
  by \<^verbatim>\<open>load_hour\<close> in the order of the calls, the errors logged, and the number of
  calls of \<^verbatim>\<open>this.setState\<close>.
\<close>

record history =
  hdata :: "int \<rightharpoonup> hour_data"
  start :: int
  channels :: "subscription list"
  console :: "logline list"
  renders :: nat

definition MSEC_PER_H :: int where
  "MSEC_PER_H = 3600000"

text \<open>
  \<^verbatim>\<open>load_hour(timestamp)\<close>: a new channel with its own \<^verbatim>\<open>data\<close> and \<^verbatim>\<open>current\<close>.
  Nothing is looked up before the channel is opened.
\<close>

definition load_hour :: "int \<Rightarrow> history \<Rightarrow> history" where
  "load_hour t h = h\<lparr>channels := channels h @ [new_subscription t]\<rparr>"

text \<open>The constructor, at the time \<open>now\<close> of \<^verbatim>\<open>Date.now()\<close>.\<close>

definition constructor :: "int \<Rightarrow> history" where
  "constructor now =
     (let current_hour = (now div MSEC_PER_H) * MSEC_PER_H;
          h = \<lparr>hdata = Map.empty, start = current_hour, channels = [], console = [],
               renders = 0\<rparr>
      in load_hour (start h - MSEC_PER_H) (load_hour (start h) h))"

text \<open>
  Events reach the listeners of channel \<open>k\<close> only while that channel exists and is open.
\<close>

definition is_open :: "nat \<Rightarrow> history \<Rightarrow> bool" where
  "is_open k h \<longleftrightarrow> k < length (channels h) \<and> \<not> sub_closed (channels h ! k)"

definition message_event :: "nat \<Rightarrow> message \<Rightarrow> history \<Rightarrow> history result" where
  "message_event k m h =
     (if \<not> is_open k h then Inr h
      else case on_message m (channels h ! k) of
             Inl (e, s) \<Rightarrow> Inl (e, h\<lparr>channels := (channels h)[k := s]\<rparr>)
           | Inr s \<Rightarrow> Inr (h\<lparr>channels := (channels h)[k := s]\<rparr>))"

text \<open>
  \<^verbatim>\<open>message.problem\<close> is a string when present; the empty string is falsy.
\<close>

fun truthy :: "string option \<Rightarrow> bool" where
  "truthy None = False"
| "truthy (Some p) = (p \<noteq> [])"

text \<open>
  The close listener, with the \<^verbatim>\<open>problem\<close> of the close message.
  \<^verbatim>\<open>data.use_memory.length\<close> throws a \<^verbatim>\<open>TypeError\<close> while \<^verbatim>\<open>data\<close> is still
  \<^verbatim>\<open>{}\<close>. \<^verbatim>\<open>this.data[timestamp] = data\<close> is the only place where an hour enters
  \<^verbatim>\<open>this.data\<close>.
\<close>

definition close_event :: "nat \<Rightarrow> string option \<Rightarrow> history \<Rightarrow> history result" where
  "close_event k problem h =
     (if \<not> is_open k h then Inr h
      else
        let s = channels h ! k;
            closing = (channels h)[k := s\<lparr>sub_closed := True\<rparr>]
        in if truthy problem
           then Inr (h\<lparr>console := console h @ [Failed_to_load], channels := closing\<rparr>)
           else case data s of
                  None \<Rightarrow> Inl (TypeError, h\<lparr>channels := closing\<rparr>)
                | Some d \<Rightarrow>
                    if length (use_memory d) = 0
                    then Inr (h\<lparr>console := console h @ [Closed_without_data],
                                channels := closing\<rparr>)
                    else Inr (h\<lparr>hdata := (hdata h)(timestamp s \<mapsto> d),
                                renders := renders h + 1, channels := closing\<rparr>))"

section \<open>Spike events of \<^verbatim>\<open>MetricsHour\<close>\<close>

text \<open>
  The scan of \<^verbatim>\<open>data.sat_memory.forEach\<close>: the indices at which an event is pushed,
  in order. \<open>i\<close> is the index of the head of the list and \<open>prev_val\<close> the last value
  that was not \<^verbatim>\<open>null\<close>.
\<close>

fun spike_scan :: "cell list \<Rightarrow> nat \<Rightarrow> jsnum \<Rightarrow> nat list" where
  "spike_scan [] i prev_val = []"
| "spike_scan (None # vs) i prev_val = spike_scan vs (Suc i) prev_val"
| "spike_scan (Some v # vs) i prev_val =
     (if js_gt (js_sub v prev_val) (Fin (1 / 4)) then [i] else []) @ spike_scan vs (Suc i) v"

text \<open>An event: its minute and the time of its label, \<^verbatim>\<open>startTime + minute * 60000\<close>.\<close>

record event =
  minute :: nat
  time_ms :: int

definition events :: "int \<Rightarrow> hour_data \<Rightarrow> event list" where
  "events startTime d =
     map (\<lambda>i. \<lparr>minute = i div 12, time_ms = startTime + int (i div 12) * 60000\<rparr>)
       (spike_scan (sat_memory d) 0 (Fin 0))"

section \<open>Notions used in the statements\<close>

text \<open>
  What a sample delivers for channel \<open>c\<close>, in the words of the specification: the value
  at that position if one is present, and for channel 3 the 1-minute field (the second
  one) of the load tuple. \<open>None\<close> stands for "nothing delivered".
\<close>

definition delivered :: "sample \<Rightarrow> nat \<Rightarrow> cell" where
  "delivered x c =
     (if c = 0 then nice x
      else if c = 1 then user x
      else if c = 2 then sys x
      else if c = 3 then
        (case load x of None \<Rightarrow> None | Some xs \<Rightarrow> if 1 < length xs then xs ! 1 else None)
      else if c = 4 then physmem x
      else if c = 5 then available x
      else if c = 6 then pagesout x
      else None)"

text \<open>
  The first real value of a list that runs from the most recent delivery back to the
  oldest, \<open>None\<close> when there is none.
\<close>

fun latest :: "cell list \<Rightarrow> cell" where
  "latest [] = None"
| "latest (v # vs) = (case v of None \<Rightarrow> latest vs | Some n \<Rightarrow> Some n)"

text \<open>
  The carry-forward value of channel \<open>c\<close> after the samples \<open>xs\<close>, again in the words
  of the specification: the value delivered by the last sample if it delivers one,
  otherwise the most recently delivered earlier value; the initial unset value before the
  first delivery.
\<close>

definition carried :: "nat \<Rightarrow> sample list \<Rightarrow> cell" where
  "carried c xs = latest (rev (map (\<lambda>x. delivered x c) xs))"

text \<open>The four series have the same length.\<close>

definition aligned :: "hour_data \<Rightarrow> bool" where
  "aligned d \<longleftrightarrow>
     length (sat_cpu d) = length (use_cpu d) \<and>
     length (use_memory d) = length (use_cpu d) \<and>
     length (sat_memory d) = length (use_cpu d)"

text \<open>Four series of \<open>n\<close> \<^verbatim>\<open>null\<close>s each.\<close>

definition null_block :: "nat \<Rightarrow> hour_data" where
  "null_block n =
     \<lparr>use_cpu = replicate n None, sat_cpu = replicate n None,
      use_memory = replicate n None, sat_memory = replicate n None\<rparr>"

text \<open>The number of channels for the hour \<open>t\<close> that are open.\<close>

definition outstanding :: "int \<Rightarrow> history \<Rightarrow> nat" where
  "outstanding t h = length (filter (\<lambda>s. timestamp s = t \<and> \<not> sub_closed s) (channels h))"

text \<open>
  A decoded 7-tuple of finite values: the seven cells of the carry-forward state when
  each holds a finite number.
\<close>

record tuple7 =
  t_nice :: rat
  t_user :: rat
  t_sys :: rat
  t_load :: rat
  t_physmem :: rat
  t_available :: rat
  t_pagesout :: rat

definition cells_of :: "tuple7 \<Rightarrow> cell list" where
  "cells_of t =
     [Some (Fin (t_nice t)), Some (Fin (t_user t)), Some (Fin (t_sys t)), Some (Fin (t_load t)),
      Some (Fin (t_physmem t)), Some (Fin (t_available t)), Some (Fin (t_pagesout t))]"

text \<open>The carry-forward states after each sample of a batch, in order.\<close>

fun tuples :: "cell list \<Rightarrow> sample list \<Rightarrow> cell list list" where
  "tuples cur [] = []"
| "tuples cur (x # xs) = decompress x cur # tuples (decompress x cur) xs"

text \<open>
  The four formulas of the specification for a 7-tuple, with the operators \<^verbatim>\<open>+\<close>, \<^verbatim>\<open>-\<close>
  and \<^verbatim>\<open>/\<close> of JavaScript on the values, the minimum and the comparisons of the
  rationals, and the literal \<^verbatim>\<open>0.3\<close>:
  \<^verbatim>\<open>(nice + user + sys) / 1000\<close>, \<^verbatim>\<open>min(load_1min, 10) / 10\<close>,
  \<^verbatim>\<open>1 - (available / total)\<close>, and 1 above 1000 pages, 0.3 above 1 page, else 0.
\<close>

definition cpu_utilization :: "tuple7 \<Rightarrow> jsnum" where
  "cpu_utilization t =
     js_div (js_add (js_add (Fin (t_nice t)) (Fin (t_user t))) (Fin (t_sys t))) (Fin 1000)"

definition cpu_saturation :: "tuple7 \<Rightarrow> jsnum" where
  "cpu_saturation t = js_div (Fin (min (t_load t) 10)) (Fin 10)"

definition memory_utilization :: "tuple7 \<Rightarrow> jsnum" where
  "memory_utilization t = js_sub (Fin 1) (js_div (Fin (t_available t)) (Fin (t_physmem t)))"

definition memory_saturation :: "tuple7 \<Rightarrow> jsnum" where
  "memory_saturation t =
     (if 1000 < t_pagesout t then Fin 1
      else if 1 < t_pagesout t then js_literal (3 / 10)
      else Fin 0)"

text \<open>
  Samples for the examples. \<open>sample_A\<close> is \<^verbatim>\<open>[10, 10, 10, [0, 1.2, 0], 8e9, 4e9, 0]\<close>,
  \<open>sample_B\<close> is the same with \<^verbatim>\<open>null\<close> for the two memory metrics, \<open>sample_C\<close> is
  \<^verbatim>\<open>[null, null, null, [0, 12, 0], null, null, 5]\<close> and \<open>sample_D\<close> is
  \<^verbatim>\<open>[null, null, null, null, null, null, 5000]\<close>. \<open>sample_E\<close> is
  \<^verbatim>\<open>[null, 10, null, null, 8e9]\<close>.
\<close>

definition sample_A :: sample where
  "sample_A =
     \<lparr>nice = Some (Fin 10), user = Some (Fin 10), sys = Some (Fin 10),
      load = Some [Some (Fin 0), Some (js_literal (12 / 10)), Some (Fin 0)],
      physmem = Some (Fin 8000000000), available = Some (Fin 4000000000),
      pagesout = Some (Fin 0)\<rparr>"

definition sample_B :: sample where
  "sample_B =
     \<lparr>nice = Some (Fin 10), user = Some (Fin 10), sys = Some (Fin 10),
      load = Some [Some (Fin 0), Some (js_literal (12 / 10)), Some (Fin 0)],
      physmem = None, available = None, pagesout = Some (Fin 0)\<rparr>"

definition sample_C :: sample where
  "sample_C =
     \<lparr>nice = None, user = None, sys = None,
      load = Some [Some (Fin 0), Some (Fin 12), Some (Fin 0)],
      physmem = None, available = None, pagesout = Some (Fin 5)\<rparr>"

definition sample_D :: sample where
  "sample_D =
     \<lparr>nice = None, user = None, sys = None, load = None,
      physmem = None, available = None, pagesout = Some (Fin 5000)\<rparr>"

definition sample_E :: sample where
  "sample_E =
     \<lparr>nice = None, user = Some (Fin 10), sys = None, load = None,
      physmem = Some (Fin 8000000000), available = None, pagesout = None\<rparr>"

text \<open>The 7-tuples after \<open>sample_A\<close>, \<open>sample_C\<close> and \<open>sample_D\<close> in this order.\<close>

definition tuple_A :: tuple7 where
  "tuple_A =
     \<lparr>t_nice = 10, t_user = 10, t_sys = 10,
      t_load = 5404319552844595 / 4503599627370496,
      t_physmem = 8000000000, t_available = 4000000000, t_pagesout = 0\<rparr>"

definition tuple_C :: tuple7 where
  "tuple_C = tuple_A\<lparr>t_load := 12, t_pagesout := 5\<rparr>"

definition tuple_D :: tuple7 where
  "tuple_D = tuple_C\<lparr>t_pagesout := 5000\<rparr>"


section \<open>Auxiliary facts\<close>

subsection \<open>Decompression keeps seven cells and carries values forward\<close>

lemma length_scalar [simp]: "length (scalar i v cur) = length cur"
  by (simp add: scalar_def split: option.splits)

lemma length_instanced [simp]: "length (instanced v cur) = length cur"
  by (simp add: instanced_def split: option.splits)

lemma length_decompress [simp]: "length (decompress x cur) = length cur"
  by (simp add: decompress_def)

lemma nth_scalar:
  "i < length cur \<Longrightarrow>
   scalar i v cur ! c = (if c = i then (case v of None \<Rightarrow> cur ! i | Some n \<Rightarrow> Some n) else cur ! c)"
  by (simp add: scalar_def split: option.splits)

lemma nth_instanced:
  "3 < length cur \<Longrightarrow>
   instanced v cur ! c =
     (if c = 3 then
        (case (case v of None \<Rightarrow> None | Some xs \<Rightarrow> if 1 < length xs then xs ! 1 else None) of
           None \<Rightarrow> cur ! 3 | Some n \<Rightarrow> Some n)
      else cur ! c)"
  by (simp add: instanced_def split: option.splits)

lemma nth_decompress:
  assumes "length cur = 7" and "c < 7"
  shows "decompress x cur ! c = (case delivered x c of None \<Rightarrow> cur ! c | Some v \<Rightarrow> Some v)"
proof -
  from \<open>c < 7\<close> consider "c = 0" | "c = 1" | "c = 2" | "c = 3" | "c = 4" | "c = 5" | "c = 6"
    by linarith
  then show ?thesis
    using \<open>length cur = 7\<close>
    by cases
      (simp_all add: decompress_def delivered_def nth_scalar nth_instanced split: option.splits)
qed

lemma length_fold_decompress [simp]:
  "length (foldl (\<lambda>cur x. decompress x cur) cur xs) = length cur"
  by (induction xs arbitrary: cur) simp_all

lemma nth_fold_decompress:
  assumes "length cur = 7" and "c < 7"
  shows "foldl (\<lambda>cur x. decompress x cur) cur xs ! c =
         (case carried c xs of None \<Rightarrow> cur ! c | Some v \<Rightarrow> Some v)"
proof (induction xs rule: rev_induct)
  case Nil
  show ?case by (simp add: carried_def)
next
  case (snoc x xs)
  then show ?case
    using assms by (simp add: nth_decompress carried_def split: option.splits)
qed

lemma carried_append:
  "carried c (xs @ ys) = (case carried c ys of None \<Rightarrow> carried c xs | Some v \<Rightarrow> Some v)"
  by (induction ys rule: rev_induct) (simp_all add: carried_def split: option.splits)

subsection \<open>A data message after the meta message\<close>

text \<open>
  Once \<^verbatim>\<open>data\<close> holds its arrays a batch cannot throw: every sample is decompressed
  and adds one element to each series.
\<close>

lemma on_batch_ok:
  "data s = Some d \<Longrightarrow>
   \<exists>d'. on_batch xs s =
          Inr (s\<lparr>current := foldl (\<lambda>cur x. decompress x cur) (current s) xs, data := Some d'\<rparr>) \<and>
        length (use_cpu d') = length (use_cpu d) + length xs \<and>
        length (sat_cpu d') = length (sat_cpu d) + length xs \<and>
        length (use_memory d') = length (use_memory d) + length xs \<and>
        length (sat_memory d') = length (sat_memory d) + length xs"
proof (induction xs arbitrary: s d)
  case Nil
  then show ?case by (intro exI [of _ d]) simp
next
  case (Cons x xs)
  let ?p = "push_sample (decompress x (current s)) d"
  let ?s = "s\<lparr>current := decompress x (current s), data := Some ?p\<rparr>"
  have "data ?s = Some ?p" by simp
  from Cons.IH [OF this] obtain d' where
    "on_batch xs ?s =
       Inr (?s\<lparr>current := foldl (\<lambda>cur x. decompress x cur) (current ?s) xs, data := Some d'\<rparr>)"
    and "length (use_cpu d') = length (use_cpu ?p) + length xs"
    and "length (sat_cpu d') = length (sat_cpu ?p) + length xs"
    and "length (use_memory d') = length (use_memory ?p) + length xs"
    and "length (sat_memory d') = length (sat_memory ?p) + length xs"
    by blast
  then show ?case
    using Cons.prems by (intro exI [of _ d']) (simp add: push_sample_def)
qed

text \<open>
  A batch is processed sample by sample: the state in the middle of a batch is the state
  after the batch of the samples so far.
\<close>

lemma on_batch_append:
  "on_batch (xs @ ys) s = (case on_batch xs s of Inl e \<Rightarrow> Inl e | Inr s' \<Rightarrow> on_batch ys s')"
  by (induction xs arbitrary: s) (simp_all add: Let_def split: option.splits)

lemma feed_data_ok:
  "data s = Some d \<Longrightarrow>
   \<exists>d'. feed (map Data fs) s =
          s\<lparr>current := foldl (\<lambda>cur x. decompress x cur) (current s) (concat fs), data := Some d'\<rparr> \<and>
        length (use_cpu d') = length (use_cpu d) + length (concat fs) \<and>
        length (sat_cpu d') = length (sat_cpu d) + length (concat fs) \<and>
        length (use_memory d') = length (use_memory d) + length (concat fs) \<and>
        length (sat_memory d') = length (sat_memory d) + length (concat fs)"
proof (induction fs arbitrary: s d)
  case Nil
  then show ?case by (intro exI [of _ d]) simp
next
  case (Cons f fs)
  from on_batch_ok [OF Cons.prems, of f] obtain d1 where
    f: "on_batch f s =
          Inr (s\<lparr>current := foldl (\<lambda>cur x. decompress x cur) (current s) f, data := Some d1\<rparr>)"
    and l1: "length (use_cpu d1) = length (use_cpu d) + length f"
      "length (sat_cpu d1) = length (sat_cpu d) + length f"
      "length (use_memory d1) = length (use_memory d) + length f"
      "length (sat_memory d1) = length (sat_memory d) + length f"
    by blast
  let ?s = "s\<lparr>current := foldl (\<lambda>cur x. decompress x cur) (current s) f, data := Some d1\<rparr>"
  have "data ?s = Some d1" by simp
  from Cons.IH [OF this] obtain d' where
    "feed (map Data fs) ?s =
       ?s\<lparr>current := foldl (\<lambda>cur x. decompress x cur) (current ?s) (concat fs), data := Some d'\<rparr>"
    and "length (use_cpu d') = length (use_cpu d1) + length (concat fs)"
      "length (sat_cpu d') = length (sat_cpu d1) + length (concat fs)"
      "length (use_memory d') = length (use_memory d1) + length (concat fs)"
      "length (sat_memory d') = length (sat_memory d1) + length (concat fs)"
    by blast
  then show ?case
    using f l1 by (intro exI [of _ d']) simp
qed

subsection \<open>The meta message\<close>

text \<open>
  The meta message throws, or sets the four series to the same block of \<^verbatim>\<open>null\<close>s, one
  for each tick of the whole minutes between the requested and the actual start.
\<close>

lemma on_meta_cases:
  "on_meta bt s = Inl (RangeError, s) \<or>
   on_meta bt s =
     Inr (s\<lparr>data := Some (null_block (nat ((bt - timestamp s) div 5000 div 12 * 12)))\<rparr>)"
  by (simp add: on_meta_def null_block_def Let_def)

lemma on_meta_Inr:
  assumes "on_meta bt s = Inr s1"
  shows "0 \<le> (bt - timestamp s) div 5000 div 12 * 12 \<and>
         s1 = s\<lparr>data := Some (null_block (nat ((bt - timestamp s) div 5000 div 12 * 12)))\<rparr>"
  using assms
  by (auto simp add: on_meta_def null_block_def Let_def array_length_ok_def split: if_splits)

lemma aligned_null_block [simp]: "aligned (null_block n)"
  by (simp add: aligned_def null_block_def)

lemma after_message_aligned:
  assumes "data s = Some d" and "aligned d"
  shows "\<exists>d'. data (after (on_message m s)) = Some d' \<and> aligned d'"
proof (cases m)
  case (Meta bt)
  then show ?thesis
    using assms on_meta_cases [of bt s] by auto
next
  case (Data batch)
  from on_batch_ok [OF assms(1), of batch] obtain d' where
    "on_batch batch s =
       Inr (s\<lparr>current := foldl (\<lambda>cur x. decompress x cur) (current s) batch, data := Some d'\<rparr>)"
    and "length (use_cpu d') = length (use_cpu d) + length batch"
    and "length (sat_cpu d') = length (sat_cpu d) + length batch"
    and "length (use_memory d') = length (use_memory d) + length batch"
    and "length (sat_memory d') = length (sat_memory d) + length batch"
    by blast
  then show ?thesis
    using Data assms(2) by (intro exI [of _ d']) (simp add: aligned_def)
qed

lemma feed_aligned:
  "data s = Some d \<Longrightarrow> aligned d \<Longrightarrow> \<exists>d'. data (feed ms s) = Some d' \<and> aligned d'"
proof (induction ms arbitrary: s d)
  case Nil
  then show ?case by simp
next
  case (Cons m ms)
  from after_message_aligned [OF Cons.prems, of m] obtain d1 where
    "data (after (on_message m s)) = Some d1" and "aligned d1"
    by blast
  from Cons.IH [OF this] show ?case by simp
qed

subsection \<open>Concrete runs\<close>

lemma constructor_0:
  "constructor 0 =
     \<lparr>hdata = Map.empty, start = 0,
      channels = [new_subscription 0, new_subscription (- 3600000)],
      console = [], renders = 0\<rparr>"
  by (simp add: constructor_def load_hour_def MSEC_PER_H_def Let_def)

lemmas run_defs =
  constructor_0 message_event_def close_event_def is_open_def new_subscription_def
  on_meta_def array_length_ok_def Let_def decompress_def scalar_def instanced_def
  sample_A_def sample_B_def push_sample_def null_block_def

lemma meta_15000:
  "on_meta 15000 (new_subscription 0) =
   Inr \<lparr>timestamp = 0, data = Some (null_block 0),
        current = [None, None, None, None, None, None, None], sub_closed = False\<rparr>"
  by (simp add: on_meta_def new_subscription_def array_length_ok_def null_block_def Let_def
      numeral_eq_Suc)

lemma meta_75000:
  "on_meta 75000 (new_subscription 0) =
   Inr \<lparr>timestamp = 0, data = Some (null_block 12),
        current = replicate 7 None, sub_closed = False\<rparr>"
  by (simp add: on_meta_def new_subscription_def array_length_ok_def null_block_def Let_def)


subsection \<open>The rounding\<close>

text \<open>
  \<open>ilog2\<close> is the binary exponent: \<open>2\<^sup>e \<le> a < 2\<^sup>e\<^sup>+\<^sup>1\<close> holds for \<open>e = ilog2 a\<close> and for no
  other \<open>e\<close>. So the rounding of \<open>q\<close> can be computed from any \<open>e\<close> with
  \<open>2\<^sup>e \<le> |q| < 2\<^sup>e\<^sup>+\<^sup>1\<close>.
\<close>

lemma pow2_pos [simp]: "0 < pow2 k"
  by (simp add: pow2_def)

lemma pow2_add: "pow2 (i + j) = pow2 i * pow2 j"
  by (simp add: pow2_def power_int_add)

lemma pow2_diff: "pow2 (i - j) = pow2 i / pow2 j"
  by (simp add: pow2_def power_int_diff)

lemma pow2_nat: "0 \<le> k \<Longrightarrow> pow2 k = 2 ^ nat k"
  by (simp add: pow2_def power_int_nonneg_exp)

lemma pow2_mono: "i \<le> j \<Longrightarrow> pow2 i \<le> pow2 j"
  by (simp add: pow2_def power_int_increasing)

lemma pow2_strict_mono: "i < j \<Longrightarrow> pow2 i < pow2 j"
  by (simp add: pow2_def power_int_strict_increasing)

lemma bitlen_rat_bounds:
  assumes "0 < p"
  shows "pow2 (bitlen p - 1) \<le> of_int p" and "of_int p < pow2 (bitlen p)"
proof -
  from bitlen_bounds [OF assms]
  have lo: "2 ^ nat (bitlen p - 1) \<le> p" and hi: "p < 2 ^ nat (bitlen p)"
    by blast+
  have b: "1 \<le> bitlen p"
    using assms bitlen_eq_zero_iff [of p] bitlen_nonneg [of p] by linarith
  have "(of_int (2 ^ nat (bitlen p - 1)) :: rat) \<le> of_int p"
    using lo by (simp only: of_int_le_iff)
  then show "pow2 (bitlen p - 1) \<le> of_int p"
    using b by (simp add: pow2_nat)
  have "(of_int p :: rat) < of_int (2 ^ nat (bitlen p))"
    using hi by (simp only: of_int_less_iff)
  then show "of_int p < pow2 (bitlen p)"
    using b by (simp add: pow2_nat)
qed

lemma ilog2_bounds:
  assumes "0 < a"
  shows "pow2 (ilog2 a) \<le> a \<and> a < pow2 (ilog2 a + 1)"
proof -
  obtain p q where pq: "quotient_of a = (p, q)"
    by (cases "quotient_of a")
  then have a: "a = of_int p / of_int q" and q: "0 < q"
    by (simp_all add: quotient_of_div quotient_of_denom_pos)
  have p: "0 < p"
    using assms a q by (simp add: zero_less_divide_iff)
  let ?d = "bitlen p - bitlen q"
  have q': "(0::rat) < of_int q" using q by simp
  have p': "(0::rat) < of_int p" using p by simp
  have up: "a < pow2 (?d + 1)"
  proof -
    have "a < pow2 (bitlen p) / of_int q"
      unfolding a using bitlen_rat_bounds(2) [OF p] q' by (simp add: divide_strict_right_mono)
    also have "\<dots> \<le> pow2 (bitlen p) / pow2 (bitlen q - 1)"
      using bitlen_rat_bounds(1) [OF q] q' by (intro divide_left_mono) (auto intro: less_imp_le mult_pos_pos)
    also have "\<dots> = pow2 (?d + 1)"
      by (simp add: pow2_diff [symmetric] algebra_simps)
    finally show ?thesis .
  qed
  have lo: "pow2 (?d - 1) \<le> a"
  proof -
    have "pow2 (?d - 1) = pow2 (bitlen p - 1) / pow2 (bitlen q)"
      by (simp add: pow2_diff [symmetric] algebra_simps)
    also have "\<dots> \<le> of_int p / pow2 (bitlen q)"
      using bitlen_rat_bounds(1) [OF p] by (intro divide_right_mono) (simp_all add: less_imp_le)
    also have "\<dots> \<le> of_int p / of_int q"
      using bitlen_rat_bounds(2) [OF q] p' q' by (intro divide_left_mono) (auto intro: less_imp_le mult_pos_pos)
    finally show ?thesis by (simp add: a)
  qed
  show ?thesis
  proof (cases "pow2 ?d \<le> a")
    case True
    then show ?thesis using up pq by (simp add: ilog2_def)
  next
    case False
    then have "a < pow2 (?d - 1 + 1)" by simp
    then show ?thesis using False lo pq by (simp add: ilog2_def)
  qed
qed

lemma ilog2_unique:
  assumes "0 < a" and "pow2 e \<le> a" and "a < pow2 (e + 1)"
  shows "ilog2 a = e"
proof -
  from ilog2_bounds [OF assms(1)]
  have 1: "pow2 (ilog2 a) \<le> a" and 2: "a < pow2 (ilog2 a + 1)" by blast+
  have "pow2 e < pow2 (ilog2 a + 1)" using assms(2) 2 by simp
  then have "e < ilog2 a + 1"
    using pow2_mono [of "ilog2 a + 1" e] by (cases "e < ilog2 a + 1") auto
  moreover have "pow2 (ilog2 a) < pow2 (e + 1)" using assms(3) 1 by simp
  then have "ilog2 a < e + 1"
    using pow2_mono [of "e + 1" "ilog2 a"] by (cases "ilog2 a < e + 1") auto
  ultimately show ?thesis by simp
qed


lemma round_double_at:
  assumes "q \<noteq> 0" and "pow2 e \<le> \<bar>q\<bar>" and "\<bar>q\<bar> < pow2 (e + 1)"
  shows "round_double q =
     (let e' = max e (- 1022);
          m = round_half_even (\<bar>q\<bar> / pow2 (e' - 52))
      in if 1024 \<le> e' \<or> (e' = 1023 \<and> m = 2 ^ 53) then (if q < 0 then NInf else PInf)
         else if m = 0 then (if q < 0 then NegZero else Fin 0)
         else Fin ((if q < 0 then - 1 else 1) * of_int m * pow2 (e' - 52)))"
proof -
  have "0 < \<bar>q\<bar>" using assms(1) by simp
  from ilog2_unique [OF this assms(2,3)] show ?thesis
    using assms(1) by (simp add: round_double_def)
qed

lemma floor_rat_numeral [simp]: "\<lfloor>numeral a / numeral b :: rat\<rfloor> = numeral a div numeral b"
  by (metis floor_divide_of_int_eq of_int_numeral)

lemma floor_rat_one_numeral [simp]: "\<lfloor>1 / numeral b :: rat\<rfloor> = 1 div numeral b"
  by (metis floor_divide_of_int_eq of_int_1 of_int_numeral)


subsection \<open>The rounding is to a nearest number\<close>

lemma round_half_even_nearest: "\<bar>of_int (round_half_even m) - m\<bar> \<le> 1 / 2"
proof -
  have "of_int \<lfloor>m\<rfloor> \<le> m" and "m < of_int \<lfloor>m\<rfloor> + 1"
    by linarith+
  then show ?thesis
    by (auto simp add: round_half_even_def Let_def abs_le_iff)
qed

lemma pow2_nonneg [simp]: "0 \<le> pow2 k"
  by (simp add: pow2_def)

lemma round_half_even_of_int [simp]: "round_half_even (of_int n) = n"
  by (simp add: round_half_even_def)

lemma scaled_nearest:
  assumes "0 < u"
  shows "\<bar>of_int (round_half_even (a / u)) * u - a\<bar> \<le> u / 2"
proof -
  let ?m = "of_int (round_half_even (a / u)) :: rat"
  have "?m * u - a = (?m - a / u) * u"
    using assms by (simp add: field_simps)
  then have "\<bar>?m * u - a\<bar> = \<bar>?m - a / u\<bar> * u"
    using assms by (simp only: abs_mult abs_of_pos)
  also have "\<dots> \<le> 1 / 2 * u"
    using round_half_even_nearest [of "a / u"] assms by (intro mult_right_mono) simp_all
  finally show ?thesis by simp
qed


text \<open>
  A finite result differs from the exact value by at most half of the distance
  \<open>2\<^sup>e\<^sup>-\<^sup>5\<^sup>2\<close> between the numbers at the exponent \<open>e\<close> of the exact value; a result of
  zero has the sign of the exact value, which is at most \<open>2\<^sup>-\<^sup>1\<^sup>0\<^sup>7\<^sup>5\<close>; and a result is
  infinite only from the middle between the largest number and \<open>2\<^sup>1\<^sup>0\<^sup>2\<^sup>4\<close> on.
\<close>

lemma round_double_error:
  assumes "q \<noteq> 0"
  shows "(case round_double q of
            Fin r \<Rightarrow> \<bar>r - q\<bar> \<le> pow2 (max (ilog2 \<bar>q\<bar>) (- 1022) - 53)
          | NegZero \<Rightarrow> q < 0 \<and> \<bar>q\<bar> \<le> pow2 (- 1075)
          | NaN \<Rightarrow> False
          | PInf \<Rightarrow> 0 < q \<and> pow2 1024 - pow2 970 \<le> q
          | NInf \<Rightarrow> q < 0 \<and> q \<le> - (pow2 1024 - pow2 970))"
proof -
  define a where "a = \<bar>q\<bar>"
  define e where "e = max (ilog2 a) (- 1022)"
  define u where "u = pow2 (e - 52)"
  define m where "m = round_half_even (a / u)"
  have a: "0 < a" using assms by (simp add: a_def)
  have u: "0 < u" by (simp add: u_def)
  have half: "pow2 (e - 53) = u / 2"
    by (simp add: u_def pow2_def power_int_diff)
  have near: "\<bar>of_int m * u - a\<bar> \<le> u / 2"
    unfolding m_def by (rule scaled_nearest [OF u])
  have unfold: "round_double q =
     (if 1024 \<le> e \<or> (e = 1023 \<and> m = 2 ^ 53) then (if q < 0 then NInf else PInf)
      else if m = 0 then (if q < 0 then NegZero else Fin 0)
      else Fin ((if q < 0 then - 1 else 1) * of_int m * u))"
    using assms
    by (simp only: round_double_def Let_def if_False a_def [symmetric] e_def [symmetric]
        u_def [symmetric] m_def [symmetric])
  have qa: "q = (if q < 0 then - a else a)" by (simp add: a_def)
  show ?thesis
  proof (cases "1024 \<le> e \<or> (e = 1023 \<and> m = 2 ^ 53)")
    case True
    have "pow2 1024 - pow2 970 \<le> a"
    proof (cases "1024 \<le> e")
      case True
      then have "1024 \<le> ilog2 a" by (simp add: e_def)
      then have "pow2 1024 \<le> pow2 (ilog2 a)" by (rule pow2_mono)
      also have "\<dots> \<le> a" using ilog2_bounds [OF a] by blast
      finally show ?thesis
        using pow2_pos [of 970] by linarith
    next
      case False
      with True have e: "e = 1023" and m: "m = 2 ^ 53" by blast+
      from near have "of_int m * u - u / 2 \<le> a" by linarith
      moreover have "of_int m * u - u / 2 = pow2 1024 - pow2 970"
        unfolding m u_def e by (simp add: pow2_def)
      ultimately show ?thesis by simp
    qed
    then have "(if q < 0 then q \<le> - (pow2 1024 - pow2 970) else pow2 1024 - pow2 970 \<le> q)"
      using qa by (cases "q < 0") simp_all
    then show ?thesis
      unfolding unfold using True assms by (cases "q < 0") simp_all
  next
    case False
    show ?thesis
    proof (cases "m = 0")
      case True
      then have small: "a \<le> u / 2" using near a by simp
      have "e = - 1022"
      proof (rule ccontr)
        assume "e \<noteq> - 1022"
        then have e: "e = ilog2 a" by (simp add: e_def)
        have "u / 2 < pow2 e"
          using pow2_strict_mono [of "e - 53" e] half by simp
        also have "\<dots> \<le> a" using ilog2_bounds [OF a] e by simp
        finally show False using small by simp
      qed
      then have tiny: "\<bar>q\<bar> \<le> pow2 (- 1075)"
        using half small by (simp add: a_def)
      have zero: "\<bar>0 - q\<bar> \<le> pow2 (max (ilog2 \<bar>q\<bar>) (- 1022) - 53)"
        using half small by (simp add: a_def e_def)
      show ?thesis
        unfolding unfold using True False tiny zero by (cases "q < 0") simp_all
    next
      case m: False
      have r: "round_double q = Fin ((if q < 0 then - 1 else 1) * of_int m * u)"
        unfolding unfold using False m by (simp only: if_False)
      have "\<bar>(if q < 0 then - 1 else 1) * of_int m * u - q\<bar> = \<bar>of_int m * u - a\<bar>"
        by (cases "q < 0") (simp_all add: a_def abs_minus_commute)
      then have "\<bar>(if q < 0 then - 1 else 1) * of_int m * u - q\<bar> \<le> pow2 (e - 53)"
        using near half by simp
      then show ?thesis
        unfolding r by (simp add: e_def a_def)
    qed
  qed
qed


text \<open>Integers of up to 53 bits are numbers: rounding leaves them as they are.\<close>

lemma round_double_of_int:
  assumes "\<bar>k\<bar> \<le> 2 ^ 53"
  shows "round_double (of_int k) = Fin (of_int k)"
proof (cases "k = 0")
  case True
  then show ?thesis by (simp add: round_double_def)
next
  case False
  define a :: rat where "a = of_int \<bar>k\<bar>"
  define e where "e = ilog2 a"
  define n where "n = nat (52 - e)"
  define sg :: rat where "sg = (if (of_int k :: rat) < 0 then - 1 else 1)"
  have abs: "\<bar>of_int k :: rat\<bar> = a" by (simp add: a_def)
  have k0: "(of_int k :: rat) \<noteq> 0" using False by simp
  have "1 \<le> \<bar>k\<bar>" using False by linarith
  then have "(of_int 1 :: rat) \<le> of_int \<bar>k\<bar>" by (simp only: of_int_le_iff)
  then have a1: "1 \<le> a" by (simp add: a_def)
  have "(of_int \<bar>k\<bar> :: rat) \<le> of_int (2 ^ 53)" using assms by (simp only: of_int_le_iff)
  then have a2: "a \<le> 2 ^ 53" by (simp add: a_def)
  have a: "0 < a" using a1 by simp
  from ilog2_bounds [OF a] have lo: "pow2 e \<le> a" and hi: "a < pow2 (e + 1)"
    by (simp_all add: e_def)
  have e0: "0 \<le> e"
  proof (rule ccontr)
    assume "\<not> 0 \<le> e"
    then have "e + 1 \<le> 0" by simp
    from pow2_mono [OF this] hi a1 show False by (simp add: pow2_def)
  qed
  have e53: "e \<le> 53"
  proof (rule ccontr)
    assume "\<not> e \<le> 53"
    then have "54 \<le> e" by simp
    from pow2_mono [OF this] lo a2 show False by (simp add: pow2_def)
  qed
  have mx: "max e (- 1022) = e" using e0 by simp
  have sign: "sg * a = of_int k"
    by (simp add: a_def sg_def)
  have no: "\<not> (1024 \<le> e \<or> (e = 1023 \<and> m = 2 ^ 53))" for m :: int
    using e53 by simp
  from round_double_at [of "of_int k :: rat" e, unfolded abs, OF k0 lo hi]
  have unfold: "round_double (of_int k) =
     (if round_half_even (a / pow2 (e - 52)) = 0
      then (if (of_int k :: rat) < 0 then NegZero else Fin 0)
      else Fin (sg * of_int (round_half_even (a / pow2 (e - 52))) * pow2 (e - 52)))"
    by (simp only: abs mx Let_def no if_False sg_def)
  show ?thesis
  proof (cases "e = 53")
    case True
    then have a53: "a = 2 ^ 53" using lo a2 by (simp add: pow2_def)
    have "a / pow2 (e - 52) = of_int (2 ^ 52)"
      unfolding a53 True by (simp add: pow2_def)
    then have "round_half_even (a / pow2 (e - 52)) = 2 ^ 52"
      by (simp only: round_half_even_of_int)
    then have "round_double (of_int k) = Fin (sg * of_int (2 ^ 52) * pow2 (e - 52))"
      unfolding unfold by simp
    also have "sg * of_int (2 ^ 52) * pow2 (e - 52) = sg * a"
      unfolding a53 True by (simp add: pow2_def)
    finally show ?thesis using sign by simp
  next
    case ne: False
    then have e52: "e \<le> 52" using e53 by simp
    have u: "pow2 (e - 52) = 1 / 2 ^ n"
    proof -
      have "e - 52 = - int n" using e52 by (simp add: n_def)
      then have "pow2 (e - 52) = pow2 (- int n)" by simp
      also have "\<dots> = 1 / 2 ^ n"
        by (simp add: pow2_def power_int_minus_divide)
      finally show ?thesis .
    qed
    have quo: "a / pow2 (e - 52) = of_int (\<bar>k\<bar> * 2 ^ n)"
      by (simp add: u a_def)
    have m: "round_half_even (a / pow2 (e - 52)) = \<bar>k\<bar> * 2 ^ n"
      unfolding quo by (rule round_half_even_of_int)
    have m0: "\<bar>k\<bar> * 2 ^ n \<noteq> 0" using False by simp
    have scaled: "(of_int (\<bar>k\<bar> * 2 ^ n) :: rat) * pow2 (e - 52) = a"
      by (simp add: u a_def)
    have "round_double (of_int k) = Fin (sg * of_int (\<bar>k\<bar> * 2 ^ n) * pow2 (e - 52))"
      unfolding unfold m using m0 by (simp only: if_False)
    also have "sg * of_int (\<bar>k\<bar> * 2 ^ n) * pow2 (e - 52) = of_int k"
      using sign scaled by (simp only: mult.assoc)
    finally show ?thesis .
  qed
qed


subsection \<open>Checks of the arithmetic\<close>

text \<open>
  \<^verbatim>\<open>0.1 + 0.2\<close> is \<^verbatim>\<open>0.30000000000000004\<close> and not \<^verbatim>\<open>0.3\<close>; \<^verbatim>\<open>0.55 - 0.3\<close> is above
  \<^verbatim>\<open>0.25\<close>; \<^verbatim>\<open>1e308 + 1e308\<close> is \<^verbatim>\<open>Infinity\<close>; \<^verbatim>\<open>1 / -0\<close> is \<^verbatim>\<open>-Infinity\<close>. The largest
  number plus half the gap to \<open>2\<^sup>1\<^sup>0\<^sup>2\<^sup>4\<close> rounds to \<^verbatim>\<open>Infinity\<close>; half of the smallest
  number rounds to zero, with its sign, and one and a half of it to twice the smallest.
\<close>

lemma literal_3_10: "js_literal (3 / 10) = Fin (5404319552844595 / 18014398509481984)"
  by code_simp

lemma literal_6_5: "js_literal (6 / 5) = Fin (5404319552844595 / 4503599627370496)"
  by code_simp

lemma sum_of_tenths:
  "js_add (js_literal (1 / 10)) (js_literal (2 / 10)) =
     Fin (1351079888211149 / 4503599627370496) \<and>
   js_add (js_literal (1 / 10)) (js_literal (2 / 10)) \<noteq> js_literal (3 / 10)"
  by code_simp

lemma difference_above_quarter:
  "js_gt (js_sub (js_literal (55 / 100)) (js_literal (3 / 10))) (Fin (1 / 4))"
  by code_simp

lemma literal_1e308: "js_literal (10 ^ 308) = Fin (10 ^ 308 + 1097906362944045541740492309677311846336810682903157585404911491537163328978494688899061249669721172515611590283743140088328307009198146046031271664502933027185697489699588559043338384466165001178426897626212945177628091195786707458122783970171784415105291802893207873272974885715430223118336)"
  by (simp add: js_literal_def round_double_at [where e = 1023] pow2_def round_half_even_def
      Let_def)

lemma sum_overflows: "js_add (js_literal (10 ^ 308)) (js_literal (10 ^ 308)) = PInf"
  unfolding literal_1e308
  by (simp add: round_double_at [where e = 1024] pow2_def Let_def)

lemma division_by_negative_zero:
  "js_div (Fin 1) NegZero = NInf \<and> js_div (Fin 1) (Fin 0) = PInf"
  by simp

lemma round_half_way:
  "round_double (2 ^ 1024 - 2 ^ 970) = PInf \<and> round_double (1 / 2 ^ 1075) = Fin 0 \<and>
   round_double (- 1 / 2 ^ 1075) = NegZero \<and> round_double (3 / 2 ^ 1075) = Fin (1 / 2 ^ 1073)"
  by (simp add: round_double_at [where e = 1023] round_double_at [where e = "- 1075"]
      round_double_at [where e = "- 1074"] pow2_def round_half_even_def Let_def)


subsection \<open>The normalisation of a 7-tuple\<close>

lemma norm_use_cpu_tuple: "norm_use_cpu (cells_of t) = cpu_utilization t"
  by (simp add: norm_use_cpu_def cells_of_def cpu_utilization_def)

lemma norm_sat_cpu_tuple: "norm_sat_cpu (cells_of t) = cpu_saturation t"
  by (simp add: norm_sat_cpu_def cells_of_def cpu_saturation_def)

lemma norm_use_memory_tuple: "norm_use_memory (cells_of t) = memory_utilization t"
  by (simp add: norm_use_memory_def cells_of_def memory_utilization_def)

lemma norm_sat_memory_tuple: "norm_sat_memory (cells_of t) = memory_saturation t"
  by (simp add: norm_sat_memory_def cells_of_def memory_saturation_def)

lemma push_sample_tuple:
  "push_sample (cells_of t) d =
     \<lparr>use_cpu = use_cpu d @ [Some (cpu_utilization t)],
      sat_cpu = sat_cpu d @ [Some (cpu_saturation t)],
      use_memory = use_memory d @ [Some (memory_utilization t)],
      sat_memory = sat_memory d @ [Some (memory_saturation t)]\<rparr>"
  by (simp add: push_sample_def norm_use_cpu_tuple norm_sat_cpu_tuple norm_use_memory_tuple
      norm_sat_memory_tuple)


subsection \<open>Unset cells in the arithmetic\<close>

text \<open>
  The sample \<^verbatim>\<open>[null, 10, null, null, 8e9]\<close> right after the meta message: the cells that
  are still \<^verbatim>\<open>null\<close> count as 0, so the values are \<^verbatim>\<open>0.01\<close>, \<^verbatim>\<open>0\<close>, \<^verbatim>\<open>1\<close> and \<^verbatim>\<open>0\<close>.
\<close>

lemma unset_cells_count_as_zero:
  "on_message (Data [sample_E]) (after (on_message (Meta 0) (new_subscription 0))) =
     Inr \<lparr>timestamp = 0,
          data = Some \<lparr>use_cpu = [Some (js_literal (1 / 100))], sat_cpu = [Some (Fin 0)],
                       use_memory = [Some (Fin 1)], sat_memory = [Some (Fin 0)]\<rparr>,
          current = [None, Some (Fin 10), None, None, Some (Fin 8000000000), None, None],
          sub_closed = False\<rparr>"
  by code_simp


section \<open>Properties of the page\<close>

subsection \<open>Normalisation of the samples\<close>

text \<open>
  C1. After the meta message, take any data frame and suppose that the carry-forward
  state after each of its samples is a 7-tuple of finite values (nice, user, sys,
  1-minute load, total memory, available memory, swap page-out rate). Then the data
  listener appends to the four series, for each tuple in order, exactly:
  \<^verbatim>\<open>(nice + user + sys) / 1000\<close> (nothing clamps it) to the CPU utilisation,
  \<^verbatim>\<open>min(load, 10) / 10\<close> to the CPU saturation, \<^verbatim>\<open>1 - available / total\<close> to the memory
  utilisation, and to the memory saturation 1 if the rate is above 1000, 0.3 if it is
  above 1 and not above 1000, and 0 otherwise.
\<close>

theorem normalizer_appends:
  assumes "data s = Some d"
    and "tuples (current s) xs = map cells_of ts"
  shows "on_message (Data xs) s =
     Inr (s\<lparr>current := foldl (\<lambda>cur x. decompress x cur) (current s) xs,
           data := Some
             \<lparr>use_cpu = use_cpu d @ map (\<lambda>t. Some (cpu_utilization t)) ts,
              sat_cpu = sat_cpu d @ map (\<lambda>t. Some (cpu_saturation t)) ts,
              use_memory = use_memory d @ map (\<lambda>t. Some (memory_utilization t)) ts,
              sat_memory = sat_memory d @ map (\<lambda>t. Some (memory_saturation t)) ts\<rparr>\<rparr>)"
  using assms
proof (induction xs arbitrary: s d ts)
  case Nil
  then show ?case by (cases s) simp
next
  case (Cons x xs)
  from Cons.prems(2) obtain t ts' where ts: "ts = t # ts'"
    and x: "decompress x (current s) = cells_of t"
    and rest: "tuples (cells_of t) xs = map cells_of ts'"
    by (cases ts) auto
  let ?s = "s\<lparr>current := cells_of t, data := Some (push_sample (cells_of t) d)\<rparr>"
  have "data ?s = Some (push_sample (cells_of t) d)"
    and "tuples (current ?s) xs = map cells_of ts'"
    using rest by simp_all
  from Cons.IH [OF this] show ?case
    using Cons.prems(1) x ts by (simp add: push_sample_tuple)
qed

text \<open>
  A frame of three samples after a meta message: \<open>sample_A\<close> sets all seven values, the
  second sample brings a load of 12 and a rate of 5, and the third a rate of 5000. The
  load of 12 is clipped to 10, and the three levels of the memory saturation appear.
\<close>

theorem normalizer_appends_witness:
  "on_message (Data [sample_A, sample_C, sample_D])
     (after (on_message (Meta 15000) (new_subscription 0))) =
     Inr \<lparr>timestamp = 0,
          data = Some
            \<lparr>use_cpu = [Some (js_literal (3 / 100)), Some (js_literal (3 / 100)),
                        Some (js_literal (3 / 100))],
             sat_cpu = [Some (js_literal (12 / 100)), Some (Fin 1), Some (Fin 1)],
             use_memory = [Some (Fin (1 / 2)), Some (Fin (1 / 2)), Some (Fin (1 / 2))],
             sat_memory = [Some (Fin 0), Some (js_literal (3 / 10)), Some (Fin 1)]\<rparr>,
          current = [Some (Fin 10), Some (Fin 10), Some (Fin 10), Some (Fin 12),
                     Some (Fin 8000000000), Some (Fin 4000000000), Some (Fin 5000)],
          sub_closed = False\<rparr>"
proof -
  let ?s = "after (on_message (Meta 15000) (new_subscription 0))"
  have d: "data ?s = Some (null_block 0)"
    by (simp add: meta_15000)
  have c: "tuples (current ?s) [sample_A, sample_C, sample_D] =
             map cells_of [tuple_A, tuple_C, tuple_D]"
    by (simp add: meta_15000 decompress_def scalar_def instanced_def sample_A_def sample_C_def
        sample_D_def cells_of_def tuple_A_def tuple_C_def tuple_D_def literal_6_5)
  have u: "map (\<lambda>t. Some (cpu_utilization t)) [tuple_A, tuple_C, tuple_D] =
             [Some (js_literal (3 / 100)), Some (js_literal (3 / 100)),
              Some (js_literal (3 / 100))]"
    by code_simp
  have sc: "map (\<lambda>t. Some (cpu_saturation t)) [tuple_A, tuple_C, tuple_D] =
             [Some (js_literal (12 / 100)), Some (Fin 1), Some (Fin 1)]"
    by code_simp
  have um: "map (\<lambda>t. Some (memory_utilization t)) [tuple_A, tuple_C, tuple_D] =
             [Some (Fin (1 / 2)), Some (Fin (1 / 2)), Some (Fin (1 / 2))]"
    by code_simp
  have sm: "map (\<lambda>t. Some (memory_saturation t)) [tuple_A, tuple_C, tuple_D] =
             [Some (Fin 0), Some (js_literal (3 / 10)), Some (Fin 1)]"
    by code_simp
  have f: "foldl (\<lambda>cur x. decompress x cur) (current ?s) [sample_A, sample_C, sample_D] =
             [Some (Fin 10), Some (Fin 10), Some (Fin 10), Some (Fin 12),
              Some (Fin 8000000000), Some (Fin 4000000000), Some (Fin 5000)]"
    by (simp add: meta_15000 decompress_def scalar_def instanced_def sample_A_def sample_C_def
        sample_D_def)
  show ?thesis
    using normalizer_appends [OF d c] unfolding u sc um sm f
    by (simp add: meta_15000 null_block_def)
qed


subsection \<open>The leading gap\<close>

text \<open>
  C2. A meta message whose timestamp is later than the requested one should fill each
  series with one \<^verbatim>\<open>null\<close> per tick of the whole minutes of the gap, followed by one
  zero per remaining tick. The listener does the first and not the second: the zeros are
  appended to a copy that is dropped. For a first sample 75 seconds late (15 ticks) each
  series holds the 12 \<^verbatim>\<open>null\<close>s and none of the 3 zeros.
\<close>

theorem gap_fill_drops_zero_ticks:
  "on_message (Meta 75000) (new_subscription 0) =
     Inr ((new_subscription 0)
       \<lparr>data := Some \<lparr>use_cpu = replicate 12 None, sat_cpu = replicate 12 None,
                       use_memory = replicate 12 None, sat_memory = replicate 12 None\<rparr>\<rparr>)"
  by (simp add: on_meta_def new_subscription_def array_length_ok_def Let_def)

subsection \<open>Carry-forward\<close>

text \<open>
  C3. After the meta message, whatever data frames arrive and in whatever batches, the
  carry-forward cell of every channel \<open>c\<close> holds the value the last sample delivered for
  \<open>c\<close> if it delivered one, and otherwise the most recently delivered earlier value (for
  channel 3 the 1-minute field of the load tuple); and a cell that has received a value
  is never unset again by later frames.
\<close>

theorem carry_forward:
  assumes "data s \<noteq> None" and "current s = replicate 7 None" and "c < 7"
  shows "current (feed (map Data fs) s) ! c = carried c (concat fs) \<and>
         (carried c (concat fs) \<noteq> None \<longrightarrow>
            current (feed (map Data (fs @ gs)) s) ! c \<noteq> None)"
proof -
  from assms(1) obtain d where d: "data s = Some d" by blast
  have len: "length (current s) = 7" using assms(2) by simp
  have at: "current (feed (map Data hs) s) ! c = carried c (concat hs)" for hs
  proof -
    from feed_data_ok [OF d, of hs] have
      "current (feed (map Data hs) s) = foldl (\<lambda>cur x. decompress x cur) (current s) (concat hs)"
      by auto
    then show ?thesis
      using nth_fold_decompress [OF len assms(3), of "concat hs"] assms(2,3)
      by (simp split: option.splits)
  qed
  show ?thesis
    using at [of fs] at [of "fs @ gs"]
    by (simp add: carried_append split: option.splits)
qed

text \<open>
  Three frames: the load is delivered by the first, its 1-minute field is missing in the
  second and the whole tuple is \<^verbatim>\<open>null\<close> in the third.
\<close>

theorem carry_forward_witness:
  "data (after (on_message (Meta 15000) (new_subscription 0))) \<noteq> None \<and>
   current (after (on_message (Meta 15000) (new_subscription 0))) = replicate 7 None \<and>
   (3::nat) < 7 \<and>
   carried 3 (concat [[sample_A], [sample_B\<lparr>load := Some [Some (Fin 2)]\<rparr>]]) =
     Some (js_literal (6 / 5)) \<and>
   current (feed (map Data [[sample_A], [sample_B\<lparr>load := Some [Some (Fin 2)]\<rparr>]])
     (after (on_message (Meta 15000) (new_subscription 0)))) ! 3 = Some (js_literal (6 / 5)) \<and>
   current (feed
       (map Data ([[sample_A], [sample_B\<lparr>load := Some [Some (Fin 2)]\<rparr>]] @
          [[sample_B\<lparr>load := None\<rparr>]]))
     (after (on_message (Meta 15000) (new_subscription 0)))) ! 3 \<noteq> None"
proof -
  let ?s = "after (on_message (Meta 15000) (new_subscription 0))"
  let ?fs = "[[sample_A], [sample_B\<lparr>load := Some [Some (Fin 2)]\<rparr>]]"
  let ?gs = "[[sample_B\<lparr>load := None\<rparr>]]"
  have a: "data ?s \<noteq> None" by (simp add: meta_15000)
  have b: "current ?s = replicate 7 None" by (simp add: meta_15000 numeral_eq_Suc)
  have c: "(3::nat) < 7" by simp
  have v: "carried 3 (concat ?fs) = Some (js_literal (6 / 5))"
    by (simp add: carried_def delivered_def sample_A_def sample_B_def)
  from carry_forward [OF a b c, of ?fs ?gs]
  have 1: "current (feed (map Data ?fs) ?s) ! 3 = carried 3 (concat ?fs)"
    and 2: "carried 3 (concat ?fs) \<noteq> None \<longrightarrow>
            current (feed (map Data (?fs @ ?gs)) ?s) ! 3 \<noteq> None"
    by blast+
  have d: "current (feed (map Data ?fs) ?s) ! 3 = Some (js_literal (6 / 5))"
    using 1 v by (simp only:)
  have e: "current (feed (map Data (?fs @ ?gs)) ?s) ! 3 \<noteq> None"
    using 2 v by (simp only: option.distinct simp_thms)
  show ?thesis
    using a b c v d e by (intro conjI)
qed


subsection \<open>What the close listener installs\<close>

text \<open>
  C4. Every hour installed at the close should have 720 entries in each of its four
  series, as the comments of the page say of \<^verbatim>\<open>this.data\<close> and of \<^verbatim>\<open>MetricsHour\<close>
  ("720 values (every 5 s)", "array of 720 samples"). The close listener installs the
  series as they are: after a meta message without gap and one sample, the hour is
  installed with one entry in each series.
\<close>

theorem partial_hour_installed_short:
  "hdata (after (close_event 0 None
      (after (message_event 0 (Data [sample_A])
        (after (message_event 0 (Meta 0) (constructor 0))))))) 0 =
   Some \<lparr>use_cpu = [Some (js_literal (3 / 100))], sat_cpu = [Some (js_literal (12 / 100))],
         use_memory = [Some (Fin (1 / 2))], sat_memory = [Some (Fin 0)]\<rparr>"
  by code_simp

subsection \<open>Repeated requests\<close>

text \<open>
  The constructor has requested the hour 0; one more request for it while that channel
  is open gives two open channels for the hour.
\<close>

theorem second_load_opens_second_channel:
  "outstanding 0 (load_hour 0 (constructor 0)) = 2"
  by (simp add: outstanding_def load_hour_def constructor_0 new_subscription_def)

text \<open>
  C5, as the code has it. Every call of \<^verbatim>\<open>load_hour\<close> opens one new channel, also when
  a channel for the same hour is open: the number of open channels for the hour grows by
  one. The two requests of the constructor are for different hours, so after it no hour
  has more than one open channel.
\<close>

theorem load_hour_always_subscribes:
  "channels (load_hour t h) = channels h @ [new_subscription t] \<and>
   outstanding t (load_hour t h) = Suc (outstanding t h) \<and>
   outstanding t (constructor now) \<le> 1"
  by (simp add: outstanding_def load_hour_def new_subscription_def constructor_def
      MSEC_PER_H_def Let_def)

subsection \<open>A channel that closes without samples\<close>

text \<open>
  C6. A channel that closes without a problem and without a sample should be reported
  as failed and install nothing; the close listener tests for it with the length of the
  memory series and logs "closed without getting data". After a meta message whose first
  sample is a minute late the series hold the 12 \<^verbatim>\<open>null\<close>s of the gap, the test does
  not hold, and the block of \<^verbatim>\<open>null\<close>s is installed as the data of the hour.
\<close>

theorem gap_only_hour_installed:
  "hdata (after (close_event 0 None (after (message_event 0 (Meta 60000) (constructor 0))))) 0 =
   Some (null_block 12)"
  by (simp add: run_defs)

subsection \<open>Spike events\<close>

text \<open>
  The scan of the series \<^verbatim>\<open>[0, 0, 0.3, 0.3, 0.6, 0.2, 0.6]\<close> pushes an event at index 2,
  the rise from 0 to 0.3: 0.3 is above the threshold 0.25.
\<close>

theorem spike_at_first_rise:
  "2 \<in> set (spike_scan
     [Some (Fin 0), Some (Fin 0), Some (js_literal (3 / 10)), Some (js_literal (3 / 10)),
      Some (js_literal (6 / 10)), Some (js_literal (2 / 10)), Some (js_literal (6 / 10))]
     0 (Fin 0))"
  by code_simp

text \<open>
  C7, as the code has it. On the series \<^verbatim>\<open>[0, 0, 0.3, 0.3, 0.6, 0.2, 0.6]\<close> the scan
  pushes an event at each of the three rises, from 0 to 0.3 (index 2), from 0.3 to 0.6
  (index 4) and from 0.2 to 0.6 (index 6), and nowhere else: not where the value stays,
  and not at the fall from 0.6 to 0.2.
\<close>

theorem spike_at_every_rise:
  "spike_scan
     [Some (Fin 0), Some (Fin 0), Some (js_literal (3 / 10)), Some (js_literal (3 / 10)),
      Some (js_literal (6 / 10)), Some (js_literal (2 / 10)), Some (js_literal (6 / 10))]
     0 (Fin 0) = [2, 4, 6]"
  by code_simp

subsection \<open>Values that are not finite\<close>

text \<open>
  C8. Every value appended to a series should be a finite number or \<^verbatim>\<open>null\<close>, never
  \<^verbatim>\<open>NaN\<close>, and no memory utilisation should be computed before the memory cells hold
  values; the test of the page asserts that no point of a graph is \<^verbatim>\<open>NaN\<close>. The data
  listener pushes \<^verbatim>\<open>1 - current[5] / current[4]\<close> without a test: for a first sample
  without the two memory metrics the value appended to the memory utilisation is \<^verbatim>\<open>NaN\<close>
  (\<^verbatim>\<open>1 - null / null\<close>).
\<close>

theorem unset_memory_appends_nan:
  "on_message (Data [sample_B]) (after (on_message (Meta 0) (new_subscription 0))) =
     Inr \<lparr>timestamp = 0,
          data = Some \<lparr>use_cpu = [Some (js_literal (3 / 100))],
                       sat_cpu = [Some (js_literal (12 / 100))],
                       use_memory = [Some NaN], sat_memory = [Some (Fin 0)]\<rparr>,
          current = [Some (Fin 10), Some (Fin 10), Some (Fin 10), Some (js_literal (12 / 10)),
                     None, None, Some (Fin 0)],
          sub_closed = False\<rparr>"
  by code_simp

subsection \<open>A close with a problem\<close>

text \<open>
  C9. When the close event of an open channel carries a problem, the listener logs the
  failure and closes the channel; the map from hours to data is what it was before the
  event.
\<close>

theorem problem_close_keeps_cache:
  assumes "is_open k h" and "truthy problem"
  shows "close_event k problem h =
           Inr (h\<lparr>console := console h @ [Failed_to_load],
                  channels := (channels h)[k := (channels h ! k)\<lparr>sub_closed := True\<rparr>]\<rparr>) \<and>
         hdata (after (close_event k problem h)) = hdata h"
  using assms by (simp add: close_event_def Let_def)

text \<open>A channel that has received a sample and closes with \<^verbatim>\<open>not-found\<close>.\<close>

theorem problem_close_keeps_cache_witness:
  "is_open 0 (after (message_event 0 (Data [sample_A])
       (after (message_event 0 (Meta 0) (constructor 0))))) \<and>
   truthy (Some ''not-found'') \<and>
   hdata (after (close_event 0 (Some ''not-found'')
     (after (message_event 0 (Data [sample_A])
       (after (message_event 0 (Meta 0) (constructor 0))))))) =
   hdata (after (message_event 0 (Data [sample_A])
       (after (message_event 0 (Meta 0) (constructor 0))))) \<and>
   hdata (after (close_event 0 (Some ''not-found'')
     (after (message_event 0 (Data [sample_A])
       (after (message_event 0 (Meta 0) (constructor 0))))))) 0 = None"
proof -
  let ?h = "after (message_event 0 (Data [sample_A])
       (after (message_event 0 (Meta 0) (constructor 0))))"
  have o: "is_open 0 ?h" by (simp add: run_defs)
  have p: "truthy (Some ''not-found'')" by simp
  have e: "hdata ?h 0 = None" by (simp add: run_defs)
  from problem_close_keeps_cache [OF o p]
  have k: "hdata (after (close_event 0 (Some ''not-found'') ?h)) = hdata ?h"
    by blast
  then have "hdata (after (close_event 0 (Some ''not-found'') ?h)) 0 = None"
    using e by (simp only:)
  with o p k show ?thesis by (intro conjI)
qed

subsection \<open>The four series grow together\<close>

text \<open>
  C10. The meta message sets the four series to the same contents. From then on,
  whatever messages follow, the four series have the same length, and a data message of
  one sample makes each of them one element longer.
\<close>

theorem series_stay_aligned:
  assumes "on_message (Meta bt) s0 = Inr s1"
  shows "(\<exists>d1. data s1 = Some d1 \<and> sat_cpu d1 = use_cpu d1 \<and> use_memory d1 = use_cpu d1 \<and>
                sat_memory d1 = use_cpu d1) \<and>
         (\<exists>d. data (feed ms s1) = Some d \<and> aligned d \<and>
            (\<exists>d'. data (after (on_message (Data [x]) (feed ms s1))) = Some d' \<and>
               length (use_cpu d') = Suc (length (use_cpu d)) \<and>
               length (sat_cpu d') = Suc (length (sat_cpu d)) \<and>
               length (use_memory d') = Suc (length (use_memory d)) \<and>
               length (sat_memory d') = Suc (length (sat_memory d))))"
proof -
  let ?m = "nat ((bt - timestamp s0) div 5000 div 12 * 12)"
  from assms have d1: "data s1 = Some (null_block ?m)"
    using on_meta_Inr [of bt s0 s1] by simp
  from feed_aligned [OF d1 aligned_null_block, of ms] obtain d where
    d: "data (feed ms s1) = Some d" and a: "aligned d"
    by blast
  from on_batch_ok [OF d, of "[x]"] obtain d' where
    "on_batch [x] (feed ms s1) =
       Inr ((feed ms s1)\<lparr>current := foldl (\<lambda>cur x. decompress x cur) (current (feed ms s1)) [x],
                          data := Some d'\<rparr>)"
    and "length (use_cpu d') = length (use_cpu d) + length [x]"
    and "length (sat_cpu d') = length (sat_cpu d) + length [x]"
    and "length (use_memory d') = length (use_memory d) + length [x]"
    and "length (sat_memory d') = length (sat_memory d) + length [x]"
    by blast
  then have "data (after (on_message (Data [x]) (feed ms s1))) = Some d' \<and>
               length (use_cpu d') = Suc (length (use_cpu d)) \<and>
               length (sat_cpu d') = Suc (length (sat_cpu d)) \<and>
               length (use_memory d') = Suc (length (use_memory d)) \<and>
               length (sat_memory d') = Suc (length (sat_memory d))"
    by simp
  with d a have steps: "\<exists>d. data (feed ms s1) = Some d \<and> aligned d \<and>
            (\<exists>d'. data (after (on_message (Data [x]) (feed ms s1))) = Some d' \<and>
               length (use_cpu d') = Suc (length (use_cpu d)) \<and>
               length (sat_cpu d') = Suc (length (sat_cpu d)) \<and>
               length (use_memory d') = Suc (length (use_memory d)) \<and>
               length (sat_memory d') = Suc (length (sat_memory d)))"
    by blast
  have seed: "\<exists>d1. data s1 = Some d1 \<and> sat_cpu d1 = use_cpu d1 \<and>
                use_memory d1 = use_cpu d1 \<and> sat_memory d1 = use_cpu d1"
    using d1 by (simp add: null_block_def)
  from seed steps show ?thesis by (rule conjI)
qed

text \<open>
  A first sample 75 seconds late, a batch of two samples, a second meta message that
  throws, an empty batch and a batch of one sample: 12 + 3 entries in each series.
\<close>

theorem series_stay_aligned_witness:
  "on_message (Meta 75000) (new_subscription 0) =
     Inr (after (on_message (Meta 75000) (new_subscription 0))) \<and>
   (\<exists>d. data (feed [Data [sample_A, sample_B], Meta (- 1), Data [], Data [sample_B]]
            (after (on_message (Meta 75000) (new_subscription 0)))) = Some d \<and>
        aligned d \<and> length (use_cpu d) = 15)"
proof -
  let ?s1 = "after (on_message (Meta 75000) (new_subscription 0))"
  let ?ms = "[Data [sample_A, sample_B], Meta (- 1), Data [], Data [sample_B]]"
  have m: "on_message (Meta 75000) (new_subscription 0) = Inr ?s1"
    by (simp add: meta_75000)
  from series_stay_aligned [OF m, of ?ms sample_A] obtain d where
    d: "data (feed ?ms ?s1) = Some d" and a: "aligned d"
    by blast
  have "length (use_cpu (the (data (feed ?ms ?s1)))) = 15"
    by (simp add: run_defs)
  then have "length (use_cpu d) = 15"
    using d by simp
  with m d a show ?thesis by blast
qed



end
